theory Spec2Isabelle
  imports Main "HOL-Library.AList"
begin

section \<open>The page route of the Notion API worker\<close>

text \<open>
  A shallow embedding of \<^verbatim>\<open>src/routes/page.ts\<close>: the guard \<^verbatim>\<open>limitedApiCall\<close> around
  every remote call and the handler \<^verbatim>\<open>pageRoute\<close>, which fetches the root page, expands
  the block graph in at most two batch rounds, resolves at most one collection and turns
  every thrown error into an error payload.

  Conventions of the model.
  \<^item> A JavaScript object used as a dictionary is an association list in insertion order
    with one entry per key; \<^verbatim>\<open>Object.keys\<close> lists the keys in that order. Notion
    identifiers are UUID strings, so the two places where a JavaScript object departs from
    this (keys that spell an array index are listed first; names inherited from
    \<^verbatim>\<open>Object.prototype\<close> read as present) do not occur.
  \<^item> A field that the code tests before use is an \<open>option\<close>; the other fields follow the
    declared TypeScript types.
  \<^item> The module variable \<^verbatim>\<open>apiCallCount\<close> and everything outside the worker (the remote
    API) make up the state that is passed through every call. In \<open>limitedApiCall_at\<close> and
    in the handler built on it one invocation runs alone: its awaits are sequential and no
    other request touches the counter meanwhile. \<open>limitedApiCall_shared\<close> is the guard
    with other invocations running during its await.
  \<^item> A thrown value is a result \<open>Inl\<close>; \<^verbatim>\<open>console.log\<close> and \<^verbatim>\<open>console.error\<close> are
    left out.
\<close>

subsection \<open>Data\<close>

text \<open>Payloads that the handler only passes on (properties, schema, rows).\<close>

datatype json =
  JNull
  | JBool bool
  | JNum int
  | JStr string
  | JArr "json list"
  | JObj "(string \<times> json) list"

text \<open>
  A thrown value, as far as the handler reads it: \<^verbatim>\<open>error.message\<close>. \<open>Error\<close> is what
  \<^verbatim>\<open>new Error(m)\<close> and the collaborators throw, \<open>TypeError\<close> what the engine throws on
  a property read of \<^verbatim>\<open>undefined\<close>, \<open>Thrown\<close> a thrown value with no message.
\<close>

datatype thrown = Error string | TypeError string | Thrown

fun message :: "thrown \<Rightarrow> string option" where
  "message (Error m) = Some m"
| "message (TypeError m) = Some m"
| "message Thrown = None"

text \<open>\<^verbatim>\<open>block.value\<close>: \<^verbatim>\<open>id\<close>, \<^verbatim>\<open>type\<close>, \<^verbatim>\<open>content?\<close>, \<^verbatim>\<open>view_ids?\<close> and the rest.\<close>

record block_value =
  value_id :: string
  value_type :: string
  content :: "string list option"
  view_ids :: "string list option"
  properties :: json

text \<open>The value of a collection view, and the entry of \<^verbatim>\<open>recordMap.collection_view\<close>.\<close>

record view_value =
  view_id :: string
  view_type :: string
  view_format :: json

record collection_view_type =
  cv_value :: view_value

text \<open>\<^verbatim>\<open>CollectionType\<close>: the entry of \<^verbatim>\<open>recordMap.collection\<close>.\<close>

record collection_value =
  collection_id :: string
  name :: json
  collection_schema :: json

record collection_type =
  c_value :: collection_value

text \<open>The annotation \<^verbatim>\<open>{ title, schema, types, data }\<close>; a view that is not found is \<open>None\<close>.\<close>

record annotation =
  title :: json
  schema :: json
  types :: "view_value option list"
  data :: json

text \<open>\<^verbatim>\<open>BlockType & { collection?: any }\<close>.\<close>

record block_type =
  role :: string
  bvalue :: "block_value option"
  collection :: "annotation option"

type_synonym graph = "(string \<times> block_type) list"

text \<open>\<^verbatim>\<open>recordMap\<close> of a fetched page: \<^verbatim>\<open>{ block, collection?, collection_view? }\<close>.\<close>

record record_map =
  rm_block :: graph
  rm_collection :: "(string \<times> collection_type) list option"
  rm_collection_view :: "(string \<times> collection_view_type) list option"

text \<open>What \<^verbatim>\<open>getTableData\<close> resolves to: \<^verbatim>\<open>{ rows, schema }\<close>.\<close>

record table_data =
  rows :: json
  td_schema :: json

text \<open>\<^verbatim>\<open>HandlerRequest\<close>: \<^verbatim>\<open>req.params.pageId\<close> and \<^verbatim>\<open>req.notionToken\<close>.\<close>

record handler_request =
  params_pageId :: string
  notionToken :: "string option"

text \<open>
  The state: the module variable \<^verbatim>\<open>apiCallCount\<close> and the world outside the worker.
  A remote operation reads and changes the world only, so an operation that is not
  invoked leaves it as it was.
\<close>

record 'w state =
  apiCallCount :: nat
  world :: 'w

type_synonym ('w, 'a) operation = "'w \<Rightarrow> (thrown + 'a) \<times> 'w"

text \<open>
  The imported collaborators, which are not part of this file of the source and are
  parameters of the model. \<open>fetchBlocks\<close> stands for
  \<^verbatim>\<open>fetchBlocks(ids, token).then((res) => res.recordMap.block)\<close>.
\<close>

record 'w env =
  parsePageId :: "string \<Rightarrow> string option"
  fetchPageById :: "string option \<Rightarrow> string option \<Rightarrow> ('w, record_map) operation"
  fetchBlocks :: "string list \<Rightarrow> string option \<Rightarrow> ('w, graph) operation"
  getTableData :: "collection_type \<Rightarrow> string \<Rightarrow> string option \<Rightarrow> bool \<Rightarrow> ('w, table_data) operation"

text \<open>
  Modelled from the spec: \<^verbatim>\<open>createResponse\<close> of \<^verbatim>\<open>../response\<close> is not under src/. The
  spec has it produce the success payload (the merged graph) or the error payload
  \<^verbatim>\<open>{ error: message }\<close> tagged with a status; the model keeps the three arguments of the
  call, an argument that is not passed being \<open>None\<close>.
\<close>

datatype payload = Blocks graph | ErrorPayload string

record response =
  body :: payload
  headers :: "(string \<times> string) list option"
  status :: "nat option"

definition createResponse ::
  "payload \<Rightarrow> (string \<times> string) list option \<Rightarrow> nat option \<Rightarrow> response" where
  "createResponse b h st = \<lparr>body = b, headers = h, status = st\<rparr>"

subsection \<open>Constants\<close>

definition MAX_API_CALLS :: nat where
  "MAX_API_CALLS = 45"

definition MAX_ITERATIONS :: nat where
  "MAX_ITERATIONS = 2"

definition MAX_BLOCKS_PER_ITERATION :: nat where
  "MAX_BLOCKS_PER_ITERATION = 20"

subsection \<open>JavaScript helpers\<close>

text \<open>\<^verbatim>\<open>s.includes(sub)\<close>.\<close>

fun startsWith :: "string \<Rightarrow> string \<Rightarrow> bool" where
  "startsWith s [] = True"
| "startsWith [] (c # sub) = False"
| "startsWith (d # s) (c # sub) = (d = c \<and> startsWith s sub)"

fun str_includes :: "string \<Rightarrow> string \<Rightarrow> bool" where
  "str_includes [] sub = (sub = [])"
| "str_includes (d # s) sub = (startsWith (d # s) sub \<or> str_includes s sub)"

text \<open>The decimal numeral that a template literal prints for a natural number.\<close>

fun string_of_nat :: "nat \<Rightarrow> string" where
  "string_of_nat n =
     (if n < 10 then [''0123456789'' ! n]
      else string_of_nat (n div 10) @ [''0123456789'' ! (n mod 10)])"

declare string_of_nat.simps [simp del]

text \<open>
  \<^verbatim>\<open>{ ...a, ...b }\<close>: the keys of \<open>a\<close> keep their places and take the value that \<open>b\<close> gives
  them, the other keys of \<open>b\<close> follow in the order of \<open>b\<close>.
\<close>

definition spread :: "(string \<times> 'a) list \<Rightarrow> (string \<times> 'a) list \<Rightarrow> (string \<times> 'a) list" where
  "spread a b = fold (\<lambda>(k, v). AList.update k v) b a"

text \<open>\<^verbatim>\<open>m ? m[Object.keys(m)[0]] : null\<close>, and \<^verbatim>\<open>Object.keys(m).map((k) => m[k])[0]\<close>.\<close>

definition first_entry :: "(string \<times> 'a) list \<Rightarrow> 'a option" where
  "first_entry m = (case m of [] \<Rightarrow> None | (k, v) # _ \<Rightarrow> Some v)"

definition first_of :: "(string \<times> 'a) list option \<Rightarrow> 'a option" where
  "first_of m = (case m of None \<Rightarrow> None | Some kvs \<Rightarrow> first_entry kvs)"

text \<open>The messages of the engine (V8) for the property reads that can fail.\<close>

definition cannot_convert :: string where
  "cannot_convert = ''Cannot convert undefined or null to object''"

definition cannot_read :: "string \<Rightarrow> string" where
  "cannot_read p = ''Cannot read properties of undefined (reading '' @ [CHR 0x27] @ p @ [CHR 0x27] @ '')''"

subsection \<open>The guard\<close>

text \<open>
  \<^verbatim>\<open>limitedApiCall(apiCallFn, errorMessage)\<close>, lines 12 to 21, with the ceiling as a
  parameter; the source fixes it to \<open>MAX_API_CALLS\<close>.
\<close>

definition limitedApiCall_at ::
  "nat \<Rightarrow> ('w, 'a) operation \<Rightarrow> string \<Rightarrow> 'w state \<Rightarrow> (thrown + 'a) \<times> 'w state" where
  "limitedApiCall_at ceiling apiCallFn errorMessage s =
     (if apiCallCount s \<ge> ceiling
      then (Inl (Error (''Too many API calls: '' @ errorMessage)), s)
      else (case apiCallFn (world s) of
              (r, w) \<Rightarrow> (r, \<lparr>apiCallCount = apiCallCount s + 1, world = w\<rparr>)))"

definition limitedApiCall ::
  "('w, 'a) operation \<Rightarrow> string \<Rightarrow> 'w state \<Rightarrow> (thrown + 'a) \<times> 'w state" where
  "limitedApiCall = limitedApiCall_at MAX_API_CALLS"



subsection \<open>Expansion of the block graph\<close>

text \<open>
  The callback of \<^verbatim>\<open>flatMap\<close>, lines 50 to 63, for the entry \<open>blockId\<close>, \<open>block\<close> of
  \<open>allBlocks\<close>. \<^verbatim>\<open>!content\<close> holds for an absent list only (an empty array is truthy);
  \<^verbatim>\<open>pageId\<close> is what \<^verbatim>\<open>parsePageId\<close> gave, possibly nothing.
\<close>

definition candidates :: "string option \<Rightarrow> graph \<Rightarrow> string \<times> block_type \<Rightarrow> string list" where
  "candidates pageId allBlocks entry =
     (case entry of (blockId, block) \<Rightarrow>
        (case bvalue block of
           None \<Rightarrow> []
         | Some v \<Rightarrow>
             (case content v of
                None \<Rightarrow> []
              | Some c \<Rightarrow>
                  if value_type v = ''page'' \<and> Some blockId \<noteq> pageId then []
                  else filter (\<lambda>i. map_of allBlocks i = None) c)))"

text \<open>\<^verbatim>\<open>pendingBlocks\<close>, lines 49 to 64.\<close>

definition pendingBlocks :: "string option \<Rightarrow> graph \<Rightarrow> string list" where
  "pendingBlocks pageId allBlocks =
     take MAX_BLOCKS_PER_ITERATION (concat (map (candidates pageId allBlocks) allBlocks))"

text \<open>
  The loop of lines 43 to 87, from round \<open>iteration\<close> on: the graph when the loop ends,
  or what the batch fetch threw.
\<close>

function expand_at ::
  "nat \<Rightarrow> 'w env \<Rightarrow> handler_request \<Rightarrow> string option \<Rightarrow> nat \<Rightarrow> graph \<Rightarrow> 'w state
   \<Rightarrow> (thrown + graph) \<times> 'w state" where
  "expand_at ceiling e req pageId iteration allBlocks s =
     (if iteration < MAX_ITERATIONS then
        (let pending = pendingBlocks pageId allBlocks in
         if pending = [] then (Inr allBlocks, s)
         else if apiCallCount s \<ge> ceiling then (Inr allBlocks, s)
         else
           (case limitedApiCall_at ceiling (fetchBlocks e pending (notionToken req))
                   (''while fetching blocks batch '' @ string_of_nat (iteration + 1)) s of
              (Inl err, s') \<Rightarrow> (Inl err, s')
            | (Inr newBlocks, s') \<Rightarrow>
                expand_at ceiling e req pageId (iteration + 1) (spread allBlocks newBlocks) s'))
      else (Inr allBlocks, s))"
  by pat_completeness auto
termination
  by (relation "measure (\<lambda>(ceiling, e, req, pageId, iteration, allBlocks, s). MAX_ITERATIONS - iteration)")
     auto

declare expand_at.simps [simp del]

subsection \<open>Resolution of the collection\<close>

text \<open>\<^verbatim>\<open>pendingCollections\<close>, lines 104 to 111.\<close>

definition pendingCollections :: "graph \<Rightarrow> string list" where
  "pendingCollections allBlocks =
     take 1 (concat (map (\<lambda>(blockId, block).
        (case bvalue block of
           None \<Rightarrow> []
         | Some v \<Rightarrow> if value_type v = ''collection_view'' then [value_id v] else []))
        allBlocks))"

text \<open>
  The operation of the fourth guarded call, lines 137 and 138: \<^verbatim>\<open>collView.value.id\<close> is
  read when the guard invokes the arrow function, and throws when the fetched page has
  an empty map of collection views.
\<close>

definition tableDataCall ::
  "'w env \<Rightarrow> handler_request \<Rightarrow> collection_type \<Rightarrow> collection_view_type option
   \<Rightarrow> ('w, table_data) operation" where
  "tableDataCall e req coll collView w =
     (case collView of
        None \<Rightarrow> (Inl (TypeError (cannot_read ''value'')), w)
      | Some cv \<Rightarrow> getTableData e coll (view_id (cv_value cv)) (notionToken req) True w)"

text \<open>Lines 142 to 157: the block \<open>b\<close> with the annotation, or the failing property read.\<close>

definition annotate ::
  "graph \<Rightarrow> string \<Rightarrow> collection_type \<Rightarrow> (string \<times> collection_view_type) list
   \<Rightarrow> table_data \<Rightarrow> thrown + graph" where
  "annotate allBlocks b coll views td =
     (case map_of allBlocks b of
        None \<Rightarrow> Inl (TypeError (cannot_read ''value''))
      | Some blk \<Rightarrow>
          (case bvalue blk of
             None \<Rightarrow> Inl (TypeError (cannot_read ''view_ids''))
           | Some v \<Rightarrow>
               (case view_ids v of
                  None \<Rightarrow> Inl (TypeError (cannot_read ''slice''))
                | Some viewIds \<Rightarrow>
                    (let limitedViewIds = take 1 viewIds in
                     Inr (AList.update b
                       (blk\<lparr>collection := Some
                          \<lparr>title = name (c_value coll),
                           schema = td_schema td,
                           types = map (\<lambda>i. case map_of views i of
                                               None \<Rightarrow> None
                                             | Some col \<Rightarrow> Some (cv_value col)) limitedViewIds,
                           data = rows td\<rparr>\<rparr>)
                       allBlocks)))))"

text \<open>Lines 89 to 161, for the root page \<open>page\<close> and the expanded graph.\<close>

definition resolve_at ::
  "nat \<Rightarrow> 'w env \<Rightarrow> handler_request \<Rightarrow> record_map \<Rightarrow> graph \<Rightarrow> 'w state
   \<Rightarrow> (thrown + graph) \<times> 'w state" where
  "resolve_at ceiling e req page allBlocks s =
     (if first_of (rm_collection page) \<noteq> None \<and> first_of (rm_collection_view page) \<noteq> None
         \<and> apiCallCount s < ceiling
      then
        (case pendingCollections allBlocks of
           [] \<Rightarrow> (Inr allBlocks, s)
         | b # _ \<Rightarrow>
             (case limitedApiCall_at ceiling (fetchPageById e (Some b) (notionToken req))
                     ''while fetching collection page'' s of
                (Inl err, s1) \<Rightarrow> (Inl err, s1)
              | (Inr collPage, s1) \<Rightarrow>
                  (case first_of (rm_collection collPage) of
                     None \<Rightarrow> (Inr allBlocks, s1)
                   | Some coll \<Rightarrow>
                       (case rm_collection_view collPage of
                          None \<Rightarrow> (Inl (TypeError cannot_convert), s1)
                        | Some views \<Rightarrow>
                            if apiCallCount s1 < ceiling then
                              (case limitedApiCall_at ceiling
                                      (tableDataCall e req coll (first_entry views))
                                      ''while fetching table data'' s1 of
                                 (Inl err, s2) \<Rightarrow> (Inl err, s2)
                               | (Inr td, s2) \<Rightarrow> (annotate allBlocks b coll views td, s2))
                            else (Inr allBlocks, s1)))))
      else (Inr allBlocks, s))"

subsection \<open>The handler\<close>

text \<open>The body of \<^verbatim>\<open>try\<close>, lines 25 to 163, up to the graph that is returned.\<close>

definition pageRoute_try_at ::
  "nat \<Rightarrow> 'w env \<Rightarrow> handler_request \<Rightarrow> 'w state \<Rightarrow> (thrown + graph) \<times> 'w state" where
  "pageRoute_try_at ceiling e req s0 =
     (let s = s0\<lparr>apiCallCount := 0\<rparr>;
          pageId = parsePageId e (params_pageId req) in
      case limitedApiCall_at ceiling (fetchPageById e pageId (notionToken req))
             ''while fetching initial page'' s of
        (Inl err, s1) \<Rightarrow> (Inl err, s1)
      | (Inr page, s1) \<Rightarrow>
          (case expand_at ceiling e req pageId 0 (spread [] (rm_block page)) s1 of
             (Inl err, s2) \<Rightarrow> (Inl err, s2)
           | (Inr allBlocks, s2) \<Rightarrow> resolve_at ceiling e req page allBlocks s2))"

text \<open>The \<^verbatim>\<open>catch\<close> clause, lines 164 to 180.\<close>

definition errorMessage_of :: "thrown \<Rightarrow> string" where
  "errorMessage_of err =
     (case message err of
        None \<Rightarrow> ''An error occurred processing the page''
      | Some m \<Rightarrow> if m = [] then ''An error occurred processing the page'' else m)"

definition statusCode_of :: "string \<Rightarrow> nat" where
  "statusCode_of errorMessage =
     (if str_includes errorMessage ''Too many API calls''
         \<or> str_includes errorMessage ''Too many subrequests''
      then 429 else 500)"

definition catch_clause :: "thrown \<Rightarrow> response" where
  "catch_clause err =
     createResponse (ErrorPayload (errorMessage_of err)) (Some [])
       (Some (statusCode_of (errorMessage_of err)))"

definition pageRoute_at ::
  "nat \<Rightarrow> 'w env \<Rightarrow> handler_request \<Rightarrow> 'w state \<Rightarrow> response \<times> 'w state" where
  "pageRoute_at ceiling e req s0 =
     (case pageRoute_try_at ceiling e req s0 of
        (Inr allBlocks, s) \<Rightarrow> (createResponse (Blocks allBlocks) None None, s)
      | (Inl err, s) \<Rightarrow> (catch_clause err, s))"

text \<open>The source's functions: the ceiling is \<open>MAX_API_CALLS\<close>.\<close>

definition expand ::
  "'w env \<Rightarrow> handler_request \<Rightarrow> string option \<Rightarrow> nat \<Rightarrow> graph \<Rightarrow> 'w state
   \<Rightarrow> (thrown + graph) \<times> 'w state" where
  "expand = expand_at MAX_API_CALLS"

definition resolve ::
  "'w env \<Rightarrow> handler_request \<Rightarrow> record_map \<Rightarrow> graph \<Rightarrow> 'w state
   \<Rightarrow> (thrown + graph) \<times> 'w state" where
  "resolve = resolve_at MAX_API_CALLS"

definition pageRoute_try ::
  "'w env \<Rightarrow> handler_request \<Rightarrow> 'w state \<Rightarrow> (thrown + graph) \<times> 'w state" where
  "pageRoute_try = pageRoute_try_at MAX_API_CALLS"

definition pageRoute :: "'w env \<Rightarrow> handler_request \<Rightarrow> 'w state \<Rightarrow> response \<times> 'w state" where
  "pageRoute = pageRoute_at MAX_API_CALLS"

subsection \<open>Scenarios\<close>

text \<open>
  A world that records the remote calls in order, and collaborators that answer from
  fixed tables: a page by its identifier, a batch by the number of calls made before it
  and the identifiers asked for, table data by the view.
\<close>

datatype call = FetchPageById "string option" | FetchBlocks "string list" | GetTableData string

definition scripted ::
  "(string option \<Rightarrow> thrown + record_map) \<Rightarrow> (nat \<Rightarrow> string list \<Rightarrow> thrown + graph)
   \<Rightarrow> (string \<Rightarrow> thrown + table_data) \<Rightarrow> call list env" where
  "scripted pages batches tables =
     \<lparr>parsePageId = Some,
      fetchPageById = (\<lambda>i t w. (pages i, w @ [FetchPageById i])),
      fetchBlocks = (\<lambda>ids t w. (batches (length w) ids, w @ [FetchBlocks ids])),
      getTableData = (\<lambda>c v t f w. (tables v, w @ [GetTableData v]))\<rparr>"

text \<open>A block with the given identifier, type, content list and view list.\<close>

definition blk :: "string \<Rightarrow> string \<Rightarrow> string list option \<Rightarrow> string list option \<Rightarrow> block_type" where
  "blk i ty c vs =
     \<lparr>role = ''reader'',
      bvalue = Some \<lparr>value_id = i, value_type = ty, content = c, view_ids = vs, properties = JNull\<rparr>,
      collection = None\<rparr>"

text \<open>The request for the page \<open>root\<close>, and a state whose counter is left over from before.\<close>

definition request0 :: handler_request where
  "request0 = \<lparr>params_pageId = ''root'', notionToken = None\<rparr>"

definition state0 :: "call list state" where
  "state0 = \<lparr>apiCallCount = 7, world = []\<rparr>"

text \<open>
  The root page of the scenarios: the page block, which refers to a known collection view,
  two unknown blocks and a known page; three collection views; a second page with a
  child of its own; one collection and one view. The batch fetch answers every identifier
  but \<open>lost\<close> with a text block that refers to a further child and to \<open>lost\<close>.
\<close>

definition collection0 :: collection_type where
  "collection0 = \<lparr>c_value = \<lparr>collection_id = ''c1'', name = JStr ''Tasks'', collection_schema = JNull\<rparr>\<rparr>"

definition view0 :: "string \<Rightarrow> collection_view_type" where
  "view0 i = \<lparr>cv_value = \<lparr>view_id = i, view_type = ''table'', view_format = JNull\<rparr>\<rparr>"

definition page0 :: record_map where
  "page0 =
     \<lparr>rm_block =
        [(''root'', blk ''root'' ''page'' (Some [''cv1'', ''a'', ''lost'', ''p2'']) None),
         (''cv1'', blk ''cv1'' ''collection_view'' None (Some [''v1'', ''v2''])),
         (''cv2'', blk ''cv2'' ''collection_view'' None (Some [''v2''])),
         (''cv3'', blk ''cv3'' ''collection_view'' None (Some [])),
         (''p2'', blk ''p2'' ''page'' (Some [''z'']) None)],
      rm_collection = Some [(''c1'', collection0)],
      rm_collection_view = Some [(''v1'', view0 ''v1'')]\<rparr>"

definition collPage0 :: record_map where
  "collPage0 =
     \<lparr>rm_block = [(''cv1'', blk ''cv1'' ''collection_view'' None (Some [''v1'', ''v2'']))],
      rm_collection = Some [(''c1'', collection0)],
      rm_collection_view = Some [(''v1'', view0 ''v1''), (''v2'', view0 ''v2'')]\<rparr>"

definition pages0 :: "string option \<Rightarrow> thrown + record_map" where
  "pages0 i = (if i = Some ''root'' then Inr page0 else Inr collPage0)"

definition batches0 :: "nat \<Rightarrow> string list \<Rightarrow> thrown + graph" where
  "batches0 n ids =
     Inr (map (\<lambda>i. (i, blk i ''text'' (Some [i @ ''1'', ''lost'']) None))
            (filter (\<lambda>i. i \<noteq> ''lost'') ids))"

definition tables0 :: "string \<Rightarrow> thrown + table_data" where
  "tables0 v = Inr \<lparr>rows = JArr [JStr v], td_schema = JObj []\<rparr>"

definition env0 :: "call list env" where
  "env0 = scripted pages0 batches0 tables0"


text \<open>The graph and the calls of \<open>env0\<close> after two rounds of expansion.\<close>

definition graph2 :: graph where
  "graph2 = rm_block page0 @
     [(''a'', blk ''a'' ''text'' (Some [''a1'', ''lost'']) None),
      (''a1'', blk ''a1'' ''text'' (Some [''a11'', ''lost'']) None)]"

definition world2 :: "call list" where
  "world2 = [FetchPageById (Some ''root''), FetchBlocks [''a'', ''lost''],
             FetchBlocks [''lost'', ''a1'', ''lost'']]"

text \<open>The root page fetch fails with the over-quota error of the hosting runtime.\<close>

definition env6 :: "call list env" where
  "env6 = scripted (\<lambda>i. Inl (Error ''Worker exceeded: Too many subrequests.'')) batches0 tables0"

text \<open>The page of the collection view comes back without a map of collection views.\<close>

definition collPage10 :: record_map where
  "collPage10 = \<lparr>rm_block = [], rm_collection = Some [(''c1'', collection0)], rm_collection_view = None\<rparr>"

definition env10 :: "call list env" where
  "env10 = scripted (\<lambda>i. if i = Some ''root'' then Inr page0 else Inr collPage10) batches0 tables0"

text \<open>A batch fetch that also returns the root block, with another content list.\<close>

definition batches4 :: "nat \<Rightarrow> string list \<Rightarrow> thrown + graph" where
  "batches4 n ids =
     Inr [(''a'', blk ''a'' ''text'' None None), (''root'', blk ''root'' ''page'' (Some []) None)]"

definition env4 :: "call list env" where
  "env4 = scripted pages0 batches4 tables0"

text \<open>
  Blocks that all refer to one another: the root and 21 more, each with the content list
  of all 22 identifiers.
\<close>

definition clique_ids :: "string list" where
  "clique_ids = ''root'' # map (\<lambda>c. [c]) ''abcdefghijklmnopqrstu''"

definition clique_page :: record_map where
  "clique_page =
     \<lparr>rm_block = [(''root'', blk ''root'' ''page'' (Some clique_ids) None)],
      rm_collection = None, rm_collection_view = None\<rparr>"

definition clique_batches :: "nat \<Rightarrow> string list \<Rightarrow> thrown + graph" where
  "clique_batches n ids = Inr (map (\<lambda>i. (i, blk i ''text'' (Some clique_ids) None)) ids)"

definition env5 :: "call list env" where
  "env5 = scripted (\<lambda>i. Inr clique_page) clique_batches tables0"

text \<open>The number of identifiers that a recorded batch fetch asked for.\<close>

fun batch_size :: "call \<Rightarrow> nat" where
  "batch_size (FetchBlocks ids) = length ids"
| "batch_size _ = 0"

text \<open>The collaborators of \<open>e\<close>, with a batch fetch that refuses more than 20 identifiers.\<close>

definition capped :: "'w env \<Rightarrow> 'w env" where
  "capped e = e\<lparr>fetchBlocks := (\<lambda>ids t w.
      if length ids \<le> 20 then fetchBlocks e ids t w else (Inl (Error ''batch too large''), w))\<rparr>"

text \<open>The annotation that \<open>env0\<close> resolves, and \<open>graph2\<close> with it on the first collection view.\<close>

definition annotation0 :: annotation where
  "annotation0 =
     \<lparr>title = JStr ''Tasks'', schema = JObj [],
      types = [Some \<lparr>view_id = ''v1'', view_type = ''table'', view_format = JNull\<rparr>],
      data = JArr [JStr ''v1'']\<rparr>"

definition graph3 :: graph where
  "graph3 = AList.update ''cv1''
     ((blk ''cv1'' ''collection_view'' None (Some [''v1'', ''v2'']))\<lparr>collection := Some annotation0\<rparr>)
     graph2"







section \<open>Dictionaries and strings\<close>


lemma spread_Nil: "spread a [] = a"
  by (simp add: spread_def)

lemma spread_Cons: "spread a ((k, v) # b) = spread (AList.update k v a) b"
  by (simp add: spread_def)

lemma map_of_spread_notin:
  "k \<notin> fst ` set b \<Longrightarrow> map_of (spread a b) k = map_of a k"
  by (induction b arbitrary: a) (auto simp: spread_Nil spread_Cons update_conv')

lemma keys_spread: "fst ` set (spread a b) = fst ` set a \<union> fst ` set b"
proof (induction b arbitrary: a)
  case Nil
  then show ?case by (simp add: spread_Nil)
next
  case (Cons p b)
  obtain k v where p: "p = (k, v)" by (cases p)
  have "fst ` set (AList.update k v a) = insert k (fst ` set a)"
    using dom_update [of k v a] by (simp add: dom_map_of_conv_image_fst)
  then show ?case using Cons [of "AList.update k v a"] by (auto simp: p spread_Cons)
qed

lemma distinct_spread: "distinct (map fst a) \<Longrightarrow> distinct (map fst (spread a b))"
  by (induction b arbitrary: a) (auto simp: spread_Nil spread_Cons distinct_update)


lemma startsWith_iff: "startsWith s sub \<longleftrightarrow> (\<exists>r. s = sub @ r)"
  by (induction s sub rule: startsWith.induct) auto

lemma str_includes_iff: "str_includes s sub \<longleftrightarrow> (\<exists>a r. s = a @ sub @ r)"
proof (induction s)
  case Nil
  then show ?case by auto
next
  case (Cons d s)
  show ?case
  proof
    assume "str_includes (d # s) sub"
    then consider "startsWith (d # s) sub" | "str_includes s sub" by auto
    then show "\<exists>a r. d # s = a @ sub @ r"
    proof cases
      case 1
      then obtain r where "d # s = sub @ r" by (auto simp: startsWith_iff)
      then have "d # s = [] @ sub @ r" by simp
      then show ?thesis by blast
    next
      case 2
      then obtain a r where "s = a @ sub @ r" using Cons by auto
      then have "d # s = (d # a) @ sub @ r" by simp
      then show ?thesis by blast
    qed
  next
    assume "\<exists>a r. d # s = a @ sub @ r"
    then obtain a r where ar: "d # s = a @ sub @ r" by auto
    show "str_includes (d # s) sub"
    proof (cases a)
      case Nil
      then have "startsWith (d # s) sub" using ar by (auto simp: startsWith_iff)
      then show ?thesis by simp
    next
      case (Cons x a')
      then have "s = a' @ sub @ r" using ar by simp
      then have "str_includes s sub" using Cons.IH by blast
      then show ?thesis by simp
    qed
  qed
qed

lemma string_of_nat_1: "string_of_nat (Suc 0) = ''1''"
  by (subst string_of_nat.simps) simp

lemma string_of_nat_2: "string_of_nat (Suc (Suc 0)) = ''2''"
  by (subst string_of_nat.simps) simp

section \<open>The guard\<close>

lemma limitedApiCall_at_full:
  "ceiling \<le> apiCallCount s \<Longrightarrow>
   limitedApiCall_at ceiling f l s = (Inl (Error (''Too many API calls: '' @ l)), s)"
  by (simp add: limitedApiCall_at_def)

lemma limitedApiCall_at_free:
  "apiCallCount s < ceiling \<Longrightarrow>
   limitedApiCall_at ceiling f l s =
     (fst (f (world s)), \<lparr>apiCallCount = apiCallCount s + 1, world = snd (f (world s))\<rparr>)"
  by (simp add: limitedApiCall_at_def split: prod.splits)

text \<open>
  C1. At or above the ceiling of 45 the guard throws the error whose message is
  "Too many API calls: " followed by the label; the state, counter and world, is the one
  it was given and the result does not depend on the operation, which is therefore not
  invoked. Below the ceiling the guard adds one to the counter, runs the operation once on
  the world and hands its outcome on, success or failure, as it is.
\<close>

theorem limitedApiCall_guard:
  "(45 \<le> apiCallCount s \<longrightarrow>
      limitedApiCall f l s = (Inl (Error (''Too many API calls: '' @ l)), s))
   \<and> (apiCallCount s < 45 \<longrightarrow>
      limitedApiCall f l s =
        (fst (f (world s)), \<lparr>apiCallCount = apiCallCount s + 1, world = snd (f (world s))\<rparr>))"
  by (simp add: limitedApiCall_def MAX_API_CALLS_def limitedApiCall_at_full limitedApiCall_at_free)

theorem limitedApiCall_guard_witness:
  "limitedApiCall (\<lambda>w. (Inr (7::nat), w @ [FetchBlocks [''a'']])) ''while testing''
      \<lparr>apiCallCount = 45, world = []\<rparr>
     = (Inl (Error ''Too many API calls: while testing''), \<lparr>apiCallCount = 45, world = []\<rparr>)
   \<and> limitedApiCall (\<lambda>w. (Inl (Error ''boom'') :: thrown + nat, w @ [FetchBlocks [''a'']])) ''while testing''
      \<lparr>apiCallCount = 44, world = []\<rparr>
     = (Inl (Error ''boom''), \<lparr>apiCallCount = 45, world = [FetchBlocks [''a'']]\<rparr>)"
  using limitedApiCall_guard [of "\<lparr>apiCallCount = 45, world = []\<rparr>"
          "\<lambda>w. (Inr (7::nat), w @ [FetchBlocks [''a'']])" "''while testing''"]
        limitedApiCall_guard [of "\<lparr>apiCallCount = 44, world = []\<rparr>"
          "\<lambda>w. (Inl (Error ''boom'') :: thrown + nat, w @ [FetchBlocks [''a'']])" "''while testing''"]
  by simp

section \<open>The call budget\<close>

lemma limitedApiCall_at_count:
  "apiCallCount s \<le> apiCallCount (snd (limitedApiCall_at c f l s))
   \<and> apiCallCount (snd (limitedApiCall_at c f l s)) \<le> apiCallCount s + 1
   \<and> (apiCallCount s \<le> c \<longrightarrow> apiCallCount (snd (limitedApiCall_at c f l s)) \<le> c)"
  by (simp add: limitedApiCall_at_def split: prod.splits)

lemma limitedApiCall_at_countD:
  assumes "limitedApiCall_at c f l s = (r, s')"
  shows "apiCallCount s \<le> apiCallCount s'" and "apiCallCount s' \<le> apiCallCount s + 1"
    and "apiCallCount s \<le> c \<Longrightarrow> apiCallCount s' \<le> c"
  using limitedApiCall_at_count [of s c f l] assms by simp_all

lemma expand_at_stop:
  "\<not> (i < MAX_ITERATIONS \<and> pendingBlocks pid g \<noteq> [] \<and> apiCallCount s < c) \<Longrightarrow>
   expand_at c e req pid i g s = (Inr g, s)"
  by (subst expand_at.simps) (auto simp: Let_def)

lemma expand_at_throw:
  "i < MAX_ITERATIONS \<Longrightarrow> pendingBlocks pid g \<noteq> [] \<Longrightarrow> apiCallCount s < c \<Longrightarrow>
   limitedApiCall_at c (fetchBlocks e (pendingBlocks pid g) (notionToken req))
     (''while fetching blocks batch '' @ string_of_nat (i + 1)) s = (Inl err, s') \<Longrightarrow>
   expand_at c e req pid i g s = (Inl err, s')"
  by (subst expand_at.simps) (simp add: Let_def)

lemma expand_at_step:
  "i < MAX_ITERATIONS \<Longrightarrow> pendingBlocks pid g \<noteq> [] \<Longrightarrow> apiCallCount s < c \<Longrightarrow>
   limitedApiCall_at c (fetchBlocks e (pendingBlocks pid g) (notionToken req))
     (''while fetching blocks batch '' @ string_of_nat (i + 1)) s = (Inr new, s') \<Longrightarrow>
   expand_at c e req pid i g s = expand_at c e req pid (i + 1) (spread g new) s'"
  by (subst expand_at.simps) (simp add: Let_def)


lemma expand_at_count:
  "apiCallCount s \<le> apiCallCount (snd (expand_at c e req pid i g s))
   \<and> apiCallCount (snd (expand_at c e req pid i g s)) \<le> apiCallCount s + (MAX_ITERATIONS - i)
   \<and> (apiCallCount s \<le> c \<longrightarrow> apiCallCount (snd (expand_at c e req pid i g s)) \<le> c)"
proof (induction c e req pid i g s rule: expand_at.induct)
  case (1 c e req pid i g s)
  let ?p = "pendingBlocks pid g"
  let ?call = "limitedApiCall_at c (fetchBlocks e ?p (notionToken req))
                 (''while fetching blocks batch '' @ string_of_nat (i + 1)) s"
  show ?case
  proof (cases "i < MAX_ITERATIONS \<and> ?p \<noteq> [] \<and> apiCallCount s < c")
    case False
    show ?thesis using expand_at_stop [OF False, of e req] by simp
  next
    case True
    obtain r s' where call: "?call = (r, s')" by (cases ?call)
    note cnt = limitedApiCall_at_countD [OF call]
    show ?thesis
    proof (cases r)
      case (Inl err)
      then have "expand_at c e req pid i g s = (Inl err, s')"
        using True call by (simp add: expand_at_throw)
      with cnt True show ?thesis by auto
    next
      case (Inr new)
      have step: "expand_at c e req pid i g s = expand_at c e req pid (i + 1) (spread g new) s'"
        using True call Inr by (simp add: expand_at_step)
      have ih: "apiCallCount s' \<le> apiCallCount (snd (expand_at c e req pid (i + 1) (spread g new) s'))
          \<and> apiCallCount (snd (expand_at c e req pid (i + 1) (spread g new) s'))
              \<le> apiCallCount s' + (MAX_ITERATIONS - (i + 1))
          \<and> (apiCallCount s' \<le> c \<longrightarrow>
              apiCallCount (snd (expand_at c e req pid (i + 1) (spread g new) s')) \<le> c)"
        using "1.IH" True call Inr by (auto simp: not_le)
      from True have "i < MAX_ITERATIONS" by simp
      with ih cnt show ?thesis unfolding step by linarith
    qed
  qed
qed

lemma annotate_Inr:
  "annotate g b coll views td = Inr g' \<Longrightarrow>
   \<exists>old v ids. map_of g b = Some old \<and> bvalue old = Some v \<and> view_ids v = Some ids
     \<and> g' = AList.update b
          (old\<lparr>collection := Some
             \<lparr>title = name (c_value coll), schema = td_schema td,
              types = map (\<lambda>i. case map_of views i of None \<Rightarrow> None
                                 | Some col \<Rightarrow> Some (cv_value col)) (take 1 ids),
              data = rows td\<rparr>\<rparr>) g"
  by (auto simp: annotate_def Let_def split: option.splits)

















section \<open>Expansion of the block graph\<close>

lemma candidates_subset:
  "i \<in> set (candidates pageId g (k, b)) \<Longrightarrow>
   \<exists>v c. bvalue b = Some v \<and> content v = Some c \<and> i \<in> set c
     \<and> (value_type v = ''page'' \<longrightarrow> Some k = pageId) \<and> map_of g i = None"
  by (cases "bvalue b"; cases "content (the (bvalue b))")
     (auto simp: candidates_def split: if_splits)

lemma pendingBlocks_origin:
  assumes "i \<in> set (pendingBlocks pageId g)"
  shows "\<exists>(k, b) \<in> set g. \<exists>v c. bvalue b = Some v \<and> content v = Some c \<and> i \<in> set c
           \<and> (value_type v = ''page'' \<longrightarrow> Some k = pageId) \<and> map_of g i = None"
proof -
  from assms have "i \<in> set (concat (map (candidates pageId g) g))"
    unfolding pendingBlocks_def by (rule in_set_takeD)
  then obtain k b where kb: "(k, b) \<in> set g" and i: "i \<in> set (candidates pageId g (k, b))"
    by auto
  from candidates_subset [OF i] kb show ?thesis by blast
qed

lemma pendingBlocks_unknown: "i \<in> set (pendingBlocks pageId g) \<Longrightarrow> map_of g i = None"
  using pendingBlocks_origin [of i pageId g] by blast

lemma length_pendingBlocks: "length (pendingBlocks pid g) \<le> MAX_BLOCKS_PER_ITERATION"
  by (simp add: pendingBlocks_def)

text \<open>
  C7. The callback that lists the candidates of one block returns the empty list for a
  block of type "page" whose key is not the root page identifier, whatever its content
  list holds; for a block whose content list is absent or empty; and for a block without
  a value. Every identifier that a round selects comes from the content list of a block
  of the graph that is not such a foreign page.
\<close>

theorem foreign_pages_and_empty_content_contribute_nothing:
  "(bvalue block = Some v \<and> value_type v = ''page'' \<and> Some blockId \<noteq> pageId
      \<longrightarrow> candidates pageId g (blockId, block) = [])
   \<and> (bvalue block = Some v \<and> (content v = None \<or> content v = Some [])
      \<longrightarrow> candidates pageId g (blockId, block) = [])
   \<and> (bvalue block = None \<longrightarrow> candidates pageId g (blockId, block) = [])
   \<and> (i \<in> set (pendingBlocks pageId g) \<longrightarrow>
        (\<exists>(k, b) \<in> set g. \<exists>w c. bvalue b = Some w \<and> content w = Some c \<and> i \<in> set c
            \<and> (value_type w = ''page'' \<longrightarrow> Some k = pageId)))"
proof -
  have a: "bvalue block = Some v \<and> value_type v = ''page'' \<and> Some blockId \<noteq> pageId
      \<longrightarrow> candidates pageId g (blockId, block) = []"
    by (auto simp: candidates_def split: option.splits)
  have b: "bvalue block = Some v \<and> (content v = None \<or> content v = Some [])
      \<longrightarrow> candidates pageId g (blockId, block) = []"
    by (auto simp: candidates_def split: option.splits)
  have c: "bvalue block = None \<longrightarrow> candidates pageId g (blockId, block) = []"
    by (simp add: candidates_def)
  have d: "i \<in> set (pendingBlocks pageId g) \<longrightarrow>
        (\<exists>(k, b) \<in> set g. \<exists>w c. bvalue b = Some w \<and> content w = Some c \<and> i \<in> set c
            \<and> (value_type w = ''page'' \<longrightarrow> Some k = pageId))"
    using pendingBlocks_origin [of i pageId g] by blast
  from a b c d show ?thesis by blast
qed

theorem foreign_pages_and_empty_content_contribute_nothing_witness:
  "candidates (Some ''root'') (rm_block page0) (''p2'', blk ''p2'' ''page'' (Some [''z'']) None) = []
   \<and> candidates (Some ''root'') (rm_block page0) (''cv3'', blk ''cv3'' ''text'' (Some []) None) = []
   \<and> candidates (Some ''root'') (rm_block page0) (''cv1'', blk ''cv1'' ''collection_view'' None None) = []
   \<and> candidates (Some ''root'') (rm_block page0) (''n'', \<lparr>role = ''reader'', bvalue = None, collection = None\<rparr>) = []
   \<and> ''z'' \<notin> set (pendingBlocks (Some ''root'') (rm_block page0))
   \<and> ''a'' \<in> set (pendingBlocks (Some ''root'') (rm_block page0))"
proof -
  have p: "pendingBlocks (Some ''root'') (rm_block page0) = [''a'', ''lost'']"
    by code_simp
  note th = foreign_pages_and_empty_content_contribute_nothing
  have 1: "candidates (Some ''root'') (rm_block page0) (''p2'', blk ''p2'' ''page'' (Some [''z'']) None) = []"
    using th [of "blk ''p2'' ''page'' (Some [''z'']) None" _ "''p2''" "Some ''root''"]
    by (simp add: blk_def)
  have 2: "candidates (Some ''root'') (rm_block page0) (''cv3'', blk ''cv3'' ''text'' (Some []) None) = []"
    using th [of "blk ''cv3'' ''text'' (Some []) None" _ "''cv3''" "Some ''root''"]
    by (simp add: blk_def)
  have 3: "candidates (Some ''root'') (rm_block page0) (''cv1'', blk ''cv1'' ''collection_view'' None None) = []"
    using th [of "blk ''cv1'' ''collection_view'' None None" _ "''cv1''" "Some ''root''"]
    by (simp add: blk_def)
  have 4: "candidates (Some ''root'') (rm_block page0) (''n'', \<lparr>role = ''reader'', bvalue = None, collection = None\<rparr>) = []"
    using th [of "\<lparr>role = ''reader'', bvalue = None, collection = None\<rparr>" _ "''n''" "Some ''root''"]
    by simp
  have 5: "''a'' \<in> set (pendingBlocks (Some ''root'') (rm_block page0))"
    by (simp add: p)
  have 6: "''z'' \<notin> set (pendingBlocks (Some ''root'') (rm_block page0))"
    by (simp add: p)
  from 1 2 3 4 5 6 show ?thesis by blast
qed

lemma spread_keeps_known:
  assumes "fst ` set new \<subseteq> set (pendingBlocks pageId g)" and "map_of g k = Some v"
  shows "map_of (spread g new) k = Some v"
proof -
  have "k \<notin> set (pendingBlocks pageId g)"
    using assms(2) pendingBlocks_unknown [of k pageId g] by auto
  with assms(1) have "k \<notin> fst ` set new" by blast
  then show ?thesis using assms(2) by (simp add: map_of_spread_notin)
qed

lemma expand_at_keeps_known:
  "expand_at c e req pid i g s = (Inr g', s') \<Longrightarrow> map_of g k = Some v \<Longrightarrow>
   \<forall>ids t w r w'. fetchBlocks e ids t w = (Inr r, w') \<longrightarrow> fst ` set r \<subseteq> set ids \<Longrightarrow>
   map_of g' k = Some v"
proof (induction c e req pid i g s rule: expand_at.induct)
  case (1 c e req pid i g s)
  note only = "1.prems"(3)
  let ?p = "pendingBlocks pid g"
  let ?call = "limitedApiCall_at c (fetchBlocks e ?p (notionToken req))
                 (''while fetching blocks batch '' @ string_of_nat (i + 1)) s"
  show ?case
  proof (cases "i < MAX_ITERATIONS \<and> ?p \<noteq> [] \<and> apiCallCount s < c")
    case False
    from expand_at_stop [OF False, of e req] "1.prems" show ?thesis by simp
  next
    case True
    obtain r t where call: "?call = (r, t)" by (cases ?call)
    show ?thesis
    proof (cases r)
      case (Inl err)
      with True call have "expand_at c e req pid i g s = (Inl err, t)"
        by (simp add: expand_at_throw)
      with "1.prems" show ?thesis by simp
    next
      case (Inr new)
      have step: "expand_at c e req pid i g s = expand_at c e req pid (i + 1) (spread g new) t"
        using True call Inr by (simp add: expand_at_step)
      have "fetchBlocks e ?p (notionToken req) (world s) = (Inr new, world t)"
        using True call Inr by (auto simp: limitedApiCall_at_def split: prod.splits)
      with only have "fst ` set new \<subseteq> set ?p" by blast
      then have known: "map_of (spread g new) k = Some v"
        using "1.prems"(2) by (rule spread_keeps_known)
      show ?thesis
        using "1.IH" True call Inr "1.prems"(1) known only unfolding step
        by (auto simp: not_le)
    qed
  qed
qed

text \<open>
  C4. When the batch-fetch collaborator returns only blocks whose identifiers were asked
  for, a block that is in the graph keeps its value through every later merge of the
  expansion: the merge then adds new keys only.
\<close>

theorem merge_keeps_known_blocks:
  assumes "\<forall>ids t w r w'. fetchBlocks e ids t w = (Inr r, w') \<longrightarrow> fst ` set r \<subseteq> set ids"
    and "expand e req pid i g s = (Inr g', s')"
    and "map_of g k = Some v"
  shows "map_of g' k = Some v"
  using expand_at_keeps_known [of MAX_API_CALLS e req pid i g s g' s' k v] assms
  by (simp add: expand_def)

theorem merge_keeps_known_blocks_witness:
  "map_of graph2 ''root'' = Some (blk ''root'' ''page'' (Some [''cv1'', ''a'', ''lost'', ''p2'']) None)"
proof -
  have 1: "\<forall>ids t w r w'. fetchBlocks env0 ids t w = (Inr r, w') \<longrightarrow> fst ` set r \<subseteq> set ids"
    by (auto simp: env0_def scripted_def batches0_def)
  have 2: "expand env0 request0 (Some ''root'') 0 (rm_block page0)
             \<lparr>apiCallCount = 1, world = [FetchPageById (Some ''root'')]\<rparr>
           = (Inr graph2, \<lparr>apiCallCount = 3, world = world2\<rparr>)"
    by code_simp
  have 3: "map_of (rm_block page0) ''root''
             = Some (blk ''root'' ''page'' (Some [''cv1'', ''a'', ''lost'', ''p2'']) None)"
    by code_simp
  show ?thesis by (rule merge_keeps_known_blocks [OF 1 2 3])
qed

text \<open>
  Nothing filters the response, though. A response that holds a block already in the
  graph replaces it: here the batch fetch returns the root block with an empty content
  list, and the merged graph has that block in place of the one the page fetch gave.
\<close>

theorem merge_overwrites_known_block_counterexample:
  "map_of (rm_block page0) ''root''
     = Some (blk ''root'' ''page'' (Some [''cv1'', ''a'', ''lost'', ''p2'']) None)
   \<and> fst (expand env4 request0 (Some ''root'') 0 (rm_block page0) \<lparr>apiCallCount = 1, world = []\<rparr>)
     = Inr (spread (rm_block page0)
              [(''a'', blk ''a'' ''text'' None None), (''root'', blk ''root'' ''page'' (Some []) None)])
   \<and> map_of (spread (rm_block page0)
              [(''a'', blk ''a'' ''text'' None None), (''root'', blk ''root'' ''page'' (Some []) None)])
         ''root''
     = Some (blk ''root'' ''page'' (Some []) None)
   \<and> blk ''root'' ''page'' (Some []) None
     \<noteq> blk ''root'' ''page'' (Some [''cv1'', ''a'', ''lost'', ''p2'']) None"
  by code_simp

lemma expand_at_cong_env:
  "\<forall>ids t w. length ids \<le> MAX_BLOCKS_PER_ITERATION \<longrightarrow> fetchBlocks e' ids t w = fetchBlocks e ids t w \<Longrightarrow>
   expand_at c e' req pid i g s = expand_at c e req pid i g s"
proof (induction c e req pid i g s rule: expand_at.induct)
  case (1 c e req pid i g s)
  note agree = "1.prems"
  let ?p = "pendingBlocks pid g"
  let ?l = "''while fetching blocks batch '' @ string_of_nat (i + 1)"
  let ?call = "limitedApiCall_at c (fetchBlocks e ?p (notionToken req)) ?l s"
  have same: "fetchBlocks e' ?p (notionToken req) = fetchBlocks e ?p (notionToken req)"
    using agree length_pendingBlocks [of pid g] by auto
  show ?case
  proof (cases "i < MAX_ITERATIONS \<and> ?p \<noteq> [] \<and> apiCallCount s < c")
    case False
    show ?thesis by (simp add: expand_at_stop [OF False])
  next
    case True
    obtain r t where call: "?call = (r, t)" by (cases ?call)
    then have call': "limitedApiCall_at c (fetchBlocks e' ?p (notionToken req)) ?l s = (r, t)"
      by (simp add: same)
    show ?thesis
    proof (cases r)
      case (Inl err)
      with True call call' show ?thesis by (simp add: expand_at_throw)
    next
      case (Inr new)
      have "expand_at c e req pid i g s = expand_at c e req pid (i + 1) (spread g new) t"
        using True call Inr by (simp add: expand_at_step)
      moreover have "expand_at c e' req pid i g s = expand_at c e' req pid (i + 1) (spread g new) t"
        using True call' Inr by (simp add: expand_at_step)
      moreover have "expand_at c e' req pid (i + 1) (spread g new) t
                      = expand_at c e req pid (i + 1) (spread g new) t"
        using "1.IH" True call Inr agree by (auto simp: not_le)
      ultimately show ?thesis by simp
    qed
  qed
qed

text \<open>
  C5. Expansion returns for every input: the loop is a total function, its round index
  growing up to the cap. From round \<open>i\<close> on it makes at most \<open>2 - i\<close> guarded calls, each
  for at most 20 identifiers: the counter grows by at most \<open>2 - i\<close>, the list of selected
  identifiers never has more than 20 entries, and the result depends on the batch-fetch
  collaborator only through its answers to lists of at most 20 identifiers. At round
  index 2 or beyond, when no candidate remains, or when the counter has reached 45, the
  loop returns the graph it has as a success and leaves the state as it is. The witness
  runs it on blocks that all refer to one another: two batches of 20, then it stops.
\<close>

theorem expansion_halts_within_round_cap:
  "apiCallCount (snd (expand e req pid i g s)) \<le> apiCallCount s + (2 - i)
   \<and> length (pendingBlocks pid g) \<le> 20
   \<and> (2 \<le> i \<longrightarrow> expand e req pid i g s = (Inr g, s))
   \<and> (pendingBlocks pid g = [] \<longrightarrow> expand e req pid i g s = (Inr g, s))
   \<and> (45 \<le> apiCallCount s \<longrightarrow> expand e req pid i g s = (Inr g, s))
   \<and> ((\<forall>ids t w. length ids \<le> 20 \<longrightarrow> fetchBlocks e' ids t w = fetchBlocks e ids t w)
        \<longrightarrow> expand e' req pid i g s = expand e req pid i g s)"
proof -
  have a: "apiCallCount (snd (expand e req pid i g s)) \<le> apiCallCount s + (2 - i)"
    using expand_at_count [of s MAX_API_CALLS e req pid i g]
    by (simp add: expand_def MAX_ITERATIONS_def)
  have b: "length (pendingBlocks pid g) \<le> 20"
    using length_pendingBlocks [of pid g] by (simp add: MAX_BLOCKS_PER_ITERATION_def)
  have c: "2 \<le> i \<longrightarrow> expand e req pid i g s = (Inr g, s)"
    by (simp add: expand_def expand_at_stop MAX_ITERATIONS_def)
  have d: "pendingBlocks pid g = [] \<longrightarrow> expand e req pid i g s = (Inr g, s)"
    by (simp add: expand_def expand_at_stop)
  have f: "45 \<le> apiCallCount s \<longrightarrow> expand e req pid i g s = (Inr g, s)"
    by (simp add: expand_def expand_at_stop MAX_API_CALLS_def)
  have h: "(\<forall>ids t w. length ids \<le> 20 \<longrightarrow> fetchBlocks e' ids t w = fetchBlocks e ids t w)
        \<longrightarrow> expand e' req pid i g s = expand e req pid i g s"
    using expand_at_cong_env [of e' e MAX_API_CALLS req pid i g s]
    by (simp add: expand_def MAX_BLOCKS_PER_ITERATION_def)
  from a b c d f h show ?thesis by blast
qed

theorem expansion_halts_within_round_cap_witness:
  "map batch_size (world (snd (expand env5 request0 (Some ''root'') 0 (rm_block clique_page)
                                   \<lparr>apiCallCount = 1, world = []\<rparr>))) = [20, 20]
   \<and> apiCallCount (snd (expand env5 request0 (Some ''root'') 0 (rm_block clique_page)
                          \<lparr>apiCallCount = 1, world = []\<rparr>)) \<le> 1 + (2 - 0)
   \<and> expand env5 request0 (Some ''root'') 2 (rm_block clique_page) \<lparr>apiCallCount = 1, world = []\<rparr>
     = (Inr (rm_block clique_page), \<lparr>apiCallCount = 1, world = []\<rparr>)
   \<and> expand env5 request0 (Some ''root'') 0 [] \<lparr>apiCallCount = 1, world = []\<rparr>
     = (Inr [], \<lparr>apiCallCount = 1, world = []\<rparr>)
   \<and> expand env5 request0 (Some ''root'') 0 (rm_block clique_page) \<lparr>apiCallCount = 45, world = []\<rparr>
     = (Inr (rm_block clique_page), \<lparr>apiCallCount = 45, world = []\<rparr>)
   \<and> expand (capped env5) request0 (Some ''root'') 0 (rm_block clique_page) \<lparr>apiCallCount = 1, world = []\<rparr>
     = expand env5 request0 (Some ''root'') 0 (rm_block clique_page) \<lparr>apiCallCount = 1, world = []\<rparr>"
proof -
  note th = expansion_halts_within_round_cap
  note rounds = th [THEN conjunct1]
  note cap = th [THEN conjunct2, THEN conjunct1]
  note last = th [THEN conjunct2, THEN conjunct2, THEN conjunct1]
  note fixed = th [THEN conjunct2, THEN conjunct2, THEN conjunct2, THEN conjunct1]
  note spent = th [THEN conjunct2, THEN conjunct2, THEN conjunct2, THEN conjunct2, THEN conjunct1]
  note small = th [THEN conjunct2, THEN conjunct2, THEN conjunct2, THEN conjunct2, THEN conjunct2]
  have run: "map batch_size (world (snd (expand env5 request0 (Some ''root'') 0 (rm_block clique_page)
                                   \<lparr>apiCallCount = 1, world = []\<rparr>))) = [20, 20]"
    by code_simp
  have a: "apiCallCount (snd (expand env5 request0 (Some ''root'') 0 (rm_block clique_page)
                          \<lparr>apiCallCount = 1, world = []\<rparr>)) \<le> 1 + (2 - 0)"
    using rounds [of env5 request0 "Some ''root''" 0 "rm_block clique_page" "\<lparr>apiCallCount = 1, world = []\<rparr>"]
    by simp
  have c: "expand env5 request0 (Some ''root'') 2 (rm_block clique_page) \<lparr>apiCallCount = 1, world = []\<rparr>
     = (Inr (rm_block clique_page), \<lparr>apiCallCount = 1, world = []\<rparr>)"
    using last [of 2 env5 request0 "Some ''root''" "rm_block clique_page" "\<lparr>apiCallCount = 1, world = []\<rparr>"]
    by simp
  have none: "pendingBlocks (Some ''root'') [] = []" by code_simp
  have d: "expand env5 request0 (Some ''root'') 0 [] \<lparr>apiCallCount = 1, world = []\<rparr>
     = (Inr [], \<lparr>apiCallCount = 1, world = []\<rparr>)"
    using fixed [of "Some ''root''" "[]" env5 request0 0 "\<lparr>apiCallCount = 1, world = []\<rparr>"] none
    by simp
  have f: "expand env5 request0 (Some ''root'') 0 (rm_block clique_page) \<lparr>apiCallCount = 45, world = []\<rparr>
     = (Inr (rm_block clique_page), \<lparr>apiCallCount = 45, world = []\<rparr>)"
    using spent [of "\<lparr>apiCallCount = 45, world = []\<rparr>" env5 request0 "Some ''root''" 0 "rm_block clique_page"]
    by simp
  have agree: "\<forall>ids t w. length ids \<le> 20 \<longrightarrow> fetchBlocks (capped env5) ids t w = fetchBlocks env5 ids t w"
    by (simp add: capped_def)
  have h: "expand (capped env5) request0 (Some ''root'') 0 (rm_block clique_page) \<lparr>apiCallCount = 1, world = []\<rparr>
     = expand env5 request0 (Some ''root'') 0 (rm_block clique_page) \<lparr>apiCallCount = 1, world = []\<rparr>"
    using small [of "capped env5" env5 request0 "Some ''root''" 0 "rm_block clique_page"
        "\<lparr>apiCallCount = 1, world = []\<rparr>"] agree by blast
  from run a c d f h show ?thesis by blast
qed








section \<open>Resolution of the collection\<close>

lemma pendingCollections_Cons:
  assumes "pendingCollections g = b # rest"
  shows "\<exists>k old v. (k, old) \<in> set g \<and> bvalue old = Some v
           \<and> value_type v = ''collection_view'' \<and> value_id v = b"
proof -
  have "b \<in> set (pendingCollections g)" using assms by simp
  then have "b \<in> set (concat (map (\<lambda>(blockId, block).
        (case bvalue block of
           None \<Rightarrow> []
         | Some v \<Rightarrow> if value_type v = ''collection_view'' then [value_id v] else [])) g))"
    unfolding pendingCollections_def by (rule in_set_takeD)
  then obtain k old where kb: "(k, old) \<in> set g"
    and b: "b \<in> set (case bvalue old of
           None \<Rightarrow> []
         | Some v \<Rightarrow> if value_type v = ''collection_view'' then [value_id v] else [])"
    by auto
  then show ?thesis by (cases "bvalue old") (auto split: if_splits)
qed

lemma resolve_at_Inr:
  assumes "resolve_at c e req page g s = (Inr g', s')"
  shows "(g' = g \<and> apiCallCount s' \<le> apiCallCount s + 1)
       \<or> (\<exists>b rest collPage coll views td w1.
             pendingCollections g = b # rest
           \<and> fetchPageById e (Some b) (notionToken req) (world s) = (Inr collPage, w1)
           \<and> first_of (rm_collection collPage) = Some coll
           \<and> rm_collection_view collPage = Some views
           \<and> tableDataCall e req coll (first_entry views) w1 = (Inr td, world s')
           \<and> annotate g b coll views td = Inr g'
           \<and> apiCallCount s' = apiCallCount s + 2)"
  using assms unfolding resolve_at_def limitedApiCall_at_def
  by (auto split: if_splits list.splits prod.splits sum.splits option.splits)

text \<open>
  C8. Whenever the resolver returns a graph, it is the graph it was given or that graph
  with the field \<open>collection\<close> of one block set. When the keys of the graph are distinct,
  every collection-view block is stored under its own identifier and the resolver returns
  after both its guarded calls, exactly one block, a collection-view block, has received
  the annotation \<^verbatim>\<open>{ title, schema, types, data }\<close> built from the fetched page and the
  table data; its other fields are as before, every other key has the value it had (with
  three collection-view blocks, the other two are as they were), and the keys and their
  order are unchanged.
\<close>

theorem collection_singularity:
  "(resolve e req page g s = (Inr g', s') \<longrightarrow>
      g' = g \<or> (\<exists>b old ann. map_of g b = Some old
                    \<and> g' = AList.update b (old\<lparr>collection := Some ann\<rparr>) g))
   \<and> (distinct (map fst g)
      \<and> (\<forall>(k, old) \<in> set g. \<forall>v. bvalue old = Some v \<and> value_type v = ''collection_view''
             \<longrightarrow> value_id v = k)
      \<and> resolve e req page g s = (Inr g', s') \<and> apiCallCount s' = apiCallCount s + 2
      \<longrightarrow> (\<exists>b old v ids ann.
             map_of g b = Some old \<and> bvalue old = Some v \<and> value_type v = ''collection_view''
           \<and> view_ids v = Some ids
           \<and> map_of g' b = Some (old\<lparr>collection := Some ann\<rparr>)
           \<and> (\<forall>k. k \<noteq> b \<longrightarrow> map_of g' k = map_of g k)
           \<and> map fst g' = map fst g
           \<and> (\<exists>collPage coll views td w1 w2.
                 fetchPageById e (Some b) (notionToken req) (world s) = (Inr collPage, w1)
               \<and> first_of (rm_collection collPage) = Some coll
               \<and> rm_collection_view collPage = Some views
               \<and> tableDataCall e req coll (first_entry views) w1 = (Inr td, w2)
               \<and> ann = \<lparr>title = name (c_value coll), schema = td_schema td,
                         types = map (\<lambda>i. case map_of views i of None \<Rightarrow> None
                                            | Some col \<Rightarrow> Some (cv_value col)) (take 1 ids),
                         data = rows td\<rparr>)))"
proof (intro conjI impI)
  assume res: "resolve e req page g s = (Inr g', s')"
  from resolve_at_Inr [OF res [unfolded resolve_def]]
  show "g' = g \<or> (\<exists>b old ann. map_of g b = Some old
                    \<and> g' = AList.update b (old\<lparr>collection := Some ann\<rparr>) g)"
  proof
    assume "g' = g \<and> apiCallCount s' \<le> apiCallCount s + 1"
    then show ?thesis by simp
  next
    assume "\<exists>b rest collPage coll views td w1.
             pendingCollections g = b # rest
           \<and> fetchPageById e (Some b) (notionToken req) (world s) = (Inr collPage, w1)
           \<and> first_of (rm_collection collPage) = Some coll
           \<and> rm_collection_view collPage = Some views
           \<and> tableDataCall e req coll (first_entry views) w1 = (Inr td, world s')
           \<and> annotate g b coll views td = Inr g'
           \<and> apiCallCount s' = apiCallCount s + 2"
    then obtain b coll views td where "annotate g b coll views td = Inr g'" by blast
    from annotate_Inr [OF this] show ?thesis by blast
  qed
next
  assume all: "distinct (map fst g)
      \<and> (\<forall>(k, old) \<in> set g. \<forall>v. bvalue old = Some v \<and> value_type v = ''collection_view''
             \<longrightarrow> value_id v = k)
      \<and> resolve e req page g s = (Inr g', s') \<and> apiCallCount s' = apiCallCount s + 2"
  then have dist: "distinct (map fst g)"
    and wf: "\<forall>(k, old) \<in> set g. \<forall>v. bvalue old = Some v \<and> value_type v = ''collection_view''
             \<longrightarrow> value_id v = k"
    and res: "resolve e req page g s = (Inr g', s')"
    and two: "apiCallCount s' = apiCallCount s + 2"
    by blast+
  from resolve_at_Inr [OF res [unfolded resolve_def]] two
  obtain b rest collPage coll views td w1 where
    pend: "pendingCollections g = b # rest"
    and fetch: "fetchPageById e (Some b) (notionToken req) (world s) = (Inr collPage, w1)"
    and coll: "first_of (rm_collection collPage) = Some coll"
    and views: "rm_collection_view collPage = Some views"
    and table: "tableDataCall e req coll (first_entry views) w1 = (Inr td, world s')"
    and ann: "annotate g b coll views td = Inr g'"
    by auto
  let ?ann = "\<lambda>ids. \<lparr>title = name (c_value coll), schema = td_schema td,
                         types = map (\<lambda>i. case map_of views i of None \<Rightarrow> None
                                            | Some col \<Rightarrow> Some (cv_value col)) (take 1 ids),
                         data = rows td\<rparr>"
  from annotate_Inr [OF ann] obtain old v ids where
    old: "map_of g b = Some old" and v: "bvalue old = Some v" and ids: "view_ids v = Some ids"
    and g': "g' = AList.update b (old\<lparr>collection := Some (?ann ids)\<rparr>) g"
    by blast
  from pendingCollections_Cons [OF pend] obtain k old0 v0 where
    entry: "(k, old0) \<in> set g" and v0: "bvalue old0 = Some v0"
    and cv: "value_type v0 = ''collection_view''" and b: "value_id v0 = b"
    by blast
  from wf entry v0 cv b have "k = b" by auto
  with entry dist have "map_of g b = Some old0" by simp
  with old v v0 have "v0 = v" by simp
  with cv have type: "value_type v = ''collection_view''" by simp
  have at_b: "map_of g' b = Some (old\<lparr>collection := Some (?ann ids)\<rparr>)"
    by (simp add: g' update_conv')
  have others: "\<forall>k. k \<noteq> b \<longrightarrow> map_of g' k = map_of g k"
    by (simp add: g' update_conv')
  have "b \<in> fst ` set g" using old by (auto dest: map_of_SomeD intro: rev_image_eqI)
  then have keys: "map fst g' = map fst g"
    by (simp add: g' update_keys)
  from old v type ids at_b others keys fetch coll views table
  show "\<exists>b old v ids ann.
             map_of g b = Some old \<and> bvalue old = Some v \<and> value_type v = ''collection_view''
           \<and> view_ids v = Some ids
           \<and> map_of g' b = Some (old\<lparr>collection := Some ann\<rparr>)
           \<and> (\<forall>k. k \<noteq> b \<longrightarrow> map_of g' k = map_of g k)
           \<and> map fst g' = map fst g
           \<and> (\<exists>collPage coll views td w1 w2.
                 fetchPageById e (Some b) (notionToken req) (world s) = (Inr collPage, w1)
               \<and> first_of (rm_collection collPage) = Some coll
               \<and> rm_collection_view collPage = Some views
               \<and> tableDataCall e req coll (first_entry views) w1 = (Inr td, w2)
               \<and> ann = \<lparr>title = name (c_value coll), schema = td_schema td,
                         types = map (\<lambda>i. case map_of views i of None \<Rightarrow> None
                                            | Some col \<Rightarrow> Some (cv_value col)) (take 1 ids),
                         data = rows td\<rparr>)"
    by blast
qed

theorem collection_singularity_witness:
  "resolve env0 request0 page0 graph2 \<lparr>apiCallCount = 3, world = world2\<rparr>
     = (Inr graph3,
        \<lparr>apiCallCount = 5,
         world = world2 @ [FetchPageById (Some ''cv1''), GetTableData ''v1'']\<rparr>)
   \<and> map fst graph3 = map fst graph2
   \<and> map_of graph3 ''cv1''
       = Some ((blk ''cv1'' ''collection_view'' None (Some [''v1'', ''v2'']))\<lparr>collection := Some annotation0\<rparr>)
   \<and> map_of graph3 ''cv2'' = Some (blk ''cv2'' ''collection_view'' None (Some [''v2'']))
   \<and> map_of graph3 ''cv3'' = Some (blk ''cv3'' ''collection_view'' None (Some []))"
proof -
  let ?s = "\<lparr>apiCallCount = 3, world = world2\<rparr>"
  let ?s' = "\<lparr>apiCallCount = 5,
         world = world2 @ [FetchPageById (Some ''cv1''), GetTableData ''v1'']\<rparr>"
  have res: "resolve env0 request0 page0 graph2 ?s = (Inr graph3, ?s')"
    by code_simp
  have dist: "distinct (map fst graph2)" by code_simp
  have wf: "\<forall>(k, old) \<in> set graph2. \<forall>v. bvalue old = Some v \<and> value_type v = ''collection_view''
             \<longrightarrow> value_id v = k"
    by (simp add: graph2_def page0_def blk_def)
  have two: "apiCallCount ?s' = apiCallCount ?s + 2" by simp
  from collection_singularity [of env0 request0 page0 graph2 ?s graph3 ?s', THEN conjunct2]
    dist wf res two
  obtain b old v ids ann where "map fst graph3 = map fst graph2" by blast
  moreover have "map_of graph3 ''cv1''
       = Some ((blk ''cv1'' ''collection_view'' None (Some [''v1'', ''v2'']))\<lparr>collection := Some annotation0\<rparr>)"
    by code_simp
  moreover have "map_of graph3 ''cv2'' = Some (blk ''cv2'' ''collection_view'' None (Some [''v2'']))"
    by code_simp
  moreover have "map_of graph3 ''cv3'' = Some (blk ''cv3'' ''collection_view'' None (Some []))"
    by code_simp
  ultimately show ?thesis using res by blast
qed

text \<open>
  C3. With a ceiling of 2, once the root-page fetch and one batch fetch have used both
  slots, the resolver makes no guarded call, even though the root page has a collection
  and a collection view: the test of line 100 fails, no error is raised, and the handler
  returns the expanded graph as a success, the state being the one after expansion.
\<close>

theorem resolver_skipped_when_budget_spent:
  assumes "limitedApiCall_at 2 (fetchPageById e (parsePageId e (params_pageId req)) (notionToken req))
             ''while fetching initial page'' (s\<lparr>apiCallCount := 0\<rparr>) = (Inr page, s1)"
    and "expand_at 2 e req (parsePageId e (params_pageId req)) 0 (spread [] (rm_block page)) s1
           = (Inr g, s2)"
    and "apiCallCount s2 = 2"
    and "first_of (rm_collection page) \<noteq> None" and "first_of (rm_collection_view page) \<noteq> None"
  shows "pageRoute_at 2 e req s = (createResponse (Blocks g) None None, s2)"
  using assms by (simp add: pageRoute_at_def pageRoute_try_at_def resolve_at_def)

theorem resolver_skipped_when_budget_spent_witness:
  "pageRoute_at 2 env0 request0 state0
     = (createResponse
          (Blocks (rm_block page0 @ [(''a'', blk ''a'' ''text'' (Some [''a1'', ''lost'']) None)]))
          None None,
        \<lparr>apiCallCount = 2,
         world = [FetchPageById (Some ''root''), FetchBlocks [''a'', ''lost'']]\<rparr>)"
proof -
  have 1: "limitedApiCall_at 2
             (fetchPageById env0 (parsePageId env0 (params_pageId request0)) (notionToken request0))
             ''while fetching initial page'' (state0\<lparr>apiCallCount := 0\<rparr>)
           = (Inr page0, \<lparr>apiCallCount = 1, world = [FetchPageById (Some ''root'')]\<rparr>)"
    by code_simp
  have 2: "expand_at 2 env0 request0 (parsePageId env0 (params_pageId request0)) 0
             (spread [] (rm_block page0))
             \<lparr>apiCallCount = 1, world = [FetchPageById (Some ''root'')]\<rparr>
           = (Inr (rm_block page0 @ [(''a'', blk ''a'' ''text'' (Some [''a1'', ''lost'']) None)]),
              \<lparr>apiCallCount = 2,
               world = [FetchPageById (Some ''root''), FetchBlocks [''a'', ''lost'']]\<rparr>)"
    by code_simp
  have 3: "apiCallCount \<lparr>apiCallCount = 2,
               world = [FetchPageById (Some ''root''), FetchBlocks [''a'', ''lost'']]\<rparr> = 2"
    by simp
  have 4: "first_of (rm_collection page0) \<noteq> None" by code_simp
  have 5: "first_of (rm_collection_view page0) \<noteq> None" by code_simp
  show ?thesis by (rule resolver_skipped_when_budget_spent [OF 1 2 3 4 5])
qed

text \<open>
  So the scenario with a ceiling of 2 does not end in status 429: the two recorded calls
  are the root-page fetch and one batch fetch, the page has a collection and a view, and
  the response is the graph after one round, with no status set.
\<close>

theorem budget_of_two_counterexample:
  "first_of (rm_collection page0) \<noteq> None \<and> first_of (rm_collection_view page0) \<noteq> None
   \<and> pageRoute_at 2 env0 request0 state0
       = (createResponse
            (Blocks (rm_block page0 @ [(''a'', blk ''a'' ''text'' (Some [''a1'', ''lost'']) None)]))
            None None,
          \<lparr>apiCallCount = 2,
           world = [FetchPageById (Some ''root''), FetchBlocks [''a'', ''lost'']]\<rparr>)
   \<and> status (fst (pageRoute_at 2 env0 request0 state0)) \<noteq> Some 429"
  by code_simp

section \<open>The handler\<close>

lemma errorMessage_of_nonempty: "errorMessage_of err \<noteq> []"
  by (simp add: errorMessage_of_def split: option.splits)

lemma statusCode_of_iff:
  "statusCode_of m =
     (if (\<exists>a r. m = a @ ''Too many API calls'' @ r) \<or> (\<exists>a r. m = a @ ''Too many subrequests'' @ r)
      then 429 else 500)"
  unfolding statusCode_of_def str_includes_iff ..

text \<open>
  C6. Whatever the body of \<^verbatim>\<open>try\<close> throws, the handler returns the payload
  \<^verbatim>\<open>{ error: m }\<close> with a non-empty message \<open>m\<close>, the message of the thrown value or,
  when that is absent or empty, the default text, and with status 429 when \<open>m\<close> contains
  "Too many API calls" or "Too many subrequests" and status 500 otherwise.
\<close>

theorem thrown_errors_classified:
  "pageRoute_try e req s = (Inl err, s') \<longrightarrow>
     (\<exists>m. pageRoute e req s =
            (createResponse (ErrorPayload m) (Some [])
               (Some (if (\<exists>a r. m = a @ ''Too many API calls'' @ r)
                         \<or> (\<exists>a r. m = a @ ''Too many subrequests'' @ r)
                      then 429 else 500)), s')
          \<and> m \<noteq> []
          \<and> m = (case message err of
                    None \<Rightarrow> ''An error occurred processing the page''
                  | Some t \<Rightarrow> if t = [] then ''An error occurred processing the page'' else t))"
proof
  assume thrown: "pageRoute_try e req s = (Inl err, s')"
  have "pageRoute e req s = (catch_clause err, s')"
    using thrown by (simp add: pageRoute_def pageRoute_try_def pageRoute_at_def)
  then have "pageRoute e req s =
      (createResponse (ErrorPayload (errorMessage_of err)) (Some [])
         (Some (if (\<exists>a r. errorMessage_of err = a @ ''Too many API calls'' @ r)
                   \<or> (\<exists>a r. errorMessage_of err = a @ ''Too many subrequests'' @ r)
                then 429 else 500)), s')"
    by (simp only: catch_clause_def statusCode_of_iff)
  moreover have "errorMessage_of err \<noteq> []" by (rule errorMessage_of_nonempty)
  moreover have "errorMessage_of err = (case message err of
                    None \<Rightarrow> ''An error occurred processing the page''
                  | Some t \<Rightarrow> if t = [] then ''An error occurred processing the page'' else t)"
    by (simp add: errorMessage_of_def)
  ultimately show "\<exists>m. pageRoute e req s =
            (createResponse (ErrorPayload m) (Some [])
               (Some (if (\<exists>a r. m = a @ ''Too many API calls'' @ r)
                         \<or> (\<exists>a r. m = a @ ''Too many subrequests'' @ r)
                      then 429 else 500)), s')
          \<and> m \<noteq> []
          \<and> m = (case message err of
                    None \<Rightarrow> ''An error occurred processing the page''
                  | Some t \<Rightarrow> if t = [] then ''An error occurred processing the page'' else t)"
    by blast
qed

theorem thrown_errors_classified_witness:
  "pageRoute_try env6 request0 state0
     = (Inl (Error ''Worker exceeded: Too many subrequests.''),
        \<lparr>apiCallCount = 1, world = [FetchPageById (Some ''root'')]\<rparr>)
   \<and> pageRoute env6 request0 state0
     = (createResponse (ErrorPayload ''Worker exceeded: Too many subrequests.'') (Some []) (Some 429),
        \<lparr>apiCallCount = 1, world = [FetchPageById (Some ''root'')]\<rparr>)"
proof -
  have thrown: "pageRoute_try env6 request0 state0
     = (Inl (Error ''Worker exceeded: Too many subrequests.''),
        \<lparr>apiCallCount = 1, world = [FetchPageById (Some ''root'')]\<rparr>)"
    by code_simp
  have inc: "\<exists>a r. ''Worker exceeded: Too many subrequests.'' = a @ ''Too many subrequests'' @ r"
    unfolding str_includes_iff [symmetric] by code_simp
  from thrown_errors_classified [of env6 request0 state0 "Error ''Worker exceeded: Too many subrequests.''"
      "\<lparr>apiCallCount = 1, world = [FetchPageById (Some ''root'')]\<rparr>"] thrown
  obtain m where m: "pageRoute env6 request0 state0 =
            (createResponse (ErrorPayload m) (Some [])
               (Some (if (\<exists>a r. m = a @ ''Too many API calls'' @ r)
                         \<or> (\<exists>a r. m = a @ ''Too many subrequests'' @ r)
                      then 429 else 500)),  \<lparr>apiCallCount = 1, world = [FetchPageById (Some ''root'')]\<rparr>)"
    and "m = (case message (Error ''Worker exceeded: Too many subrequests.'') of
                    None \<Rightarrow> ''An error occurred processing the page''
                  | Some t \<Rightarrow> if t = [] then ''An error occurred processing the page'' else t)"
    by blast
  then have "m = ''Worker exceeded: Too many subrequests.''" by simp
  with m inc thrown show ?thesis by simp
qed

lemma statusCode_of_cannot_convert: "statusCode_of cannot_convert = 500"
  by code_simp

lemma errorMessage_of_cannot_convert:
  "errorMessage_of (TypeError cannot_convert) = ''Cannot convert undefined or null to object''"
  by code_simp

text \<open>
  C10. When the page fetched for the collection view has a non-empty collection map and
  no map of collection views, \<^verbatim>\<open>Object.keys\<close> throws on line 131: the handler returns
  status 500 with the message of that TypeError instead of the graph, the guarded call
  that fetched the page being the last one made.
\<close>

theorem missing_collection_view_map_gives_500:
  assumes root: "limitedApiCall (fetchPageById e (parsePageId e (params_pageId req)) (notionToken req))
             ''while fetching initial page'' (s\<lparr>apiCallCount := 0\<rparr>) = (Inr page, s1)"
    and loop: "expand e req (parsePageId e (params_pageId req)) 0 (spread [] (rm_block page)) s1
           = (Inr g, s2)"
    and coll: "first_of (rm_collection page) \<noteq> None"
    and view: "first_of (rm_collection_view page) \<noteq> None"
    and pend: "pendingCollections g = [b]"
    and fetch: "fetchPageById e (Some b) (notionToken req) (world s2) = (Inr collPage, w3)"
    and some: "first_of (rm_collection collPage) \<noteq> None"
    and none: "rm_collection_view collPage = None"
  shows "pageRoute e req s =
           (createResponse (ErrorPayload ''Cannot convert undefined or null to object'')
              (Some []) (Some 500),
            \<lparr>apiCallCount = apiCallCount s2 + 1, world = w3\<rparr>)"
proof -
  have "apiCallCount s1 \<le> 1"
    using limitedApiCall_at_countD(2) [OF root [unfolded limitedApiCall_def]] by simp
  moreover have "apiCallCount s2 \<le> apiCallCount s1 + 2"
    using expand_at_count [of s1 MAX_API_CALLS e req "parsePageId e (params_pageId req)" 0
        "spread [] (rm_block page)"] loop
    by (simp add: expand_def MAX_ITERATIONS_def)
  ultimately have lt: "apiCallCount s2 < MAX_API_CALLS" by (simp add: MAX_API_CALLS_def)
  have call: "limitedApiCall_at MAX_API_CALLS (fetchPageById e (Some b) (notionToken req))
                ''while fetching collection page'' s2
              = (Inr collPage, \<lparr>apiCallCount = apiCallCount s2 + 1, world = w3\<rparr>)"
    using lt fetch by (simp add: limitedApiCall_at_free)
  have res: "resolve_at MAX_API_CALLS e req page g s2
              = (Inl (TypeError cannot_convert), \<lparr>apiCallCount = apiCallCount s2 + 1, world = w3\<rparr>)"
    using coll view lt pend call some none
    by (auto simp: resolve_at_def split: option.splits)
  have "pageRoute_try_at MAX_API_CALLS e req s
          = (Inl (TypeError cannot_convert), \<lparr>apiCallCount = apiCallCount s2 + 1, world = w3\<rparr>)"
    using root loop res by (simp add: pageRoute_try_at_def limitedApiCall_def expand_def)
  then show ?thesis
    by (simp add: pageRoute_def pageRoute_at_def catch_clause_def
        errorMessage_of_cannot_convert statusCode_of_cannot_convert [unfolded cannot_convert_def])
qed

theorem missing_collection_view_map_gives_500_witness:
  "pageRoute env10 request0 state0 =
     (createResponse (ErrorPayload ''Cannot convert undefined or null to object'')
        (Some []) (Some 500),
      \<lparr>apiCallCount = 4, world = world2 @ [FetchPageById (Some ''cv1'')]\<rparr>)"
proof -
  have 1: "limitedApiCall
             (fetchPageById env10 (parsePageId env10 (params_pageId request0)) (notionToken request0))
             ''while fetching initial page'' (state0\<lparr>apiCallCount := 0\<rparr>)
           = (Inr page0, \<lparr>apiCallCount = 1, world = [FetchPageById (Some ''root'')]\<rparr>)"
    by code_simp
  have 2: "expand env10 request0 (parsePageId env10 (params_pageId request0)) 0
             (spread [] (rm_block page0))
             \<lparr>apiCallCount = 1, world = [FetchPageById (Some ''root'')]\<rparr>
           = (Inr graph2, \<lparr>apiCallCount = 3, world = world2\<rparr>)"
    by code_simp
  have 3: "first_of (rm_collection page0) \<noteq> None" by code_simp
  have 4: "first_of (rm_collection_view page0) \<noteq> None" by code_simp
  have 5: "pendingCollections graph2 = [''cv1'']" by code_simp
  have 6: "fetchPageById env10 (Some ''cv1'') (notionToken request0)
             (world \<lparr>apiCallCount = 3, world = world2\<rparr>)
           = (Inr collPage10, world2 @ [FetchPageById (Some ''cv1'')])"
    by code_simp
  have 7: "first_of (rm_collection collPage10) \<noteq> None" by code_simp
  have 8: "rm_collection_view collPage10 = None" by code_simp
  show ?thesis
    using missing_collection_view_map_gives_500 [OF 1 2 3 4 5 6 7 8] by simp
qed

end
